theory Spec2Isabelle
  imports Main
begin

section \<open>JavaScript strings\<close>

text \<open>
  A string is a list of 8-bit characters, read as the UTF-8 bytes of the JavaScript string.
  The naming functions only ever compare against ASCII literals and cut ASCII suffixes, so
  they act on the bytes exactly as they act on the UTF-16 code units.
\<close>

definition upperLetters :: string where
  "upperLetters = ''ABCDEFGHIJKLMNOPQRSTUVWXYZ''"

definition lowerLetters :: string where
  "lowerLetters = ''abcdefghijklmnopqrstuvwxyz''"

text \<open>
  \<open>String.prototype.toLowerCase\<close>. It is only applied before a comparison with a
  lower-case ASCII literal, where the letters A to Z are the only characters that matter.
\<close>

definition toLowerCase_char :: "char \<Rightarrow> char" where
  "toLowerCase_char c =
     (case map_of (zip upperLetters lowerLetters) c of None \<Rightarrow> c | Some l \<Rightarrow> l)"

definition toLowerCase :: "string \<Rightarrow> string" where
  "toLowerCase s = map toLowerCase_char s"

text \<open>\<open>String.prototype.endsWith\<close>.\<close>

definition endsWith :: "string \<Rightarrow> string \<Rightarrow> bool" where
  "endsWith s e = (length e \<le> length s \<and> drop (length s - length e) s = e)"

text \<open>
  \<open>String.prototype.slice(start, end)\<close>: a negative index counts from the end of the
  string, and both indices are clamped to the string.
\<close>

definition clampIndex :: "string \<Rightarrow> int \<Rightarrow> nat" where
  "clampIndex s i =
     (let len = int (length s)
      in nat (if i < 0 then max (len + i) 0 else min i len))"

definition slice :: "string \<Rightarrow> int \<Rightarrow> int \<Rightarrow> string" where
  "slice s start endIndex = take (clampIndex s endIndex - clampIndex s start) (drop (clampIndex s start) s)"

text \<open>\<open>slice(start)\<close>, with the end left out, runs to the end of the string.\<close>

definition sliceFrom :: "string \<Rightarrow> int \<Rightarrow> string" where
  "sliceFrom s start = drop (clampIndex s start) s"

text \<open>\<open>String.prototype.includes\<close>: the argument occurs as a contiguous part.\<close>

fun includesStr :: "string \<Rightarrow> string \<Rightarrow> bool" where
  "includesStr [] t = (t = [])"
| "includesStr (c # cs) t = (take (length t) (c # cs) = t \<or> includesStr cs t)"

section \<open>Naming utilities (src/index.ts)\<close>

definition toSingular :: "string \<Rightarrow> string" where
  "toSingular str =
     (if endsWith str ''ies'' \<and> length str > 3 then slice str 0 (-3) @ ''y''
      else if endsWith str ''es'' \<and> length str > 2 then
        (let withoutEs = slice str 0 (-2)
         in if list_ex (\<lambda>e. endsWith withoutEs e) [''ch'', ''sh'', ''ss'', ''x'', ''z'', ''o'']
            then withoutEs
            else slice str 0 (-1))
      else if endsWith str ''s'' \<and> length str > 1 then slice str 0 (-1)
      else str)"

definition toPlural :: "string \<Rightarrow> string" where
  "toPlural str =
     (if str = [] then str
      else if endsWith (toLowerCase str) ''s'' then str
      else if length str > 1 \<and> toLowerCase (sliceFrom str (-1)) = ''y''
              \<and> (let secondLast = toLowerCase (slice str (-2) (-1))
                  in \<not> includesStr ''aeiou'' secondLast)
        then slice str 0 (-1) @ ''ies''
      else (let esEndings = [''ch'', ''sh'', ''x'', ''z'', ''o'']
            in if list_ex (\<lambda>ending. endsWith (toLowerCase str) ending) esEndings
               then str @ ''es''
               else str @ ''s''))"

section \<open>Endpoint pluralization of the API client (src/api.ts)\<close>

definition pluralize :: "string \<Rightarrow> string" where
  "pluralize word =
     (if word = [] then word
      else if endsWith (toLowerCase word) ''s'' then word
      else if length word > 1 \<and> toLowerCase (sliceFrom word (-1)) = ''y''
              \<and> (let secondLast = toLowerCase (slice word (-2) (-1))
                  in \<not> includesStr ''aeiou'' secondLast)
        then slice word 0 (-1) @ ''ies''
      else (let esEndings = [''ch'', ''sh'', ''x'', ''z'', ''o'']
            in if list_ex (\<lambda>ending. endsWith (toLowerCase word) ending) esEndings
               then word @ ''es''
               else word @ ''s''))"

section \<open>JavaScript values and errors\<close>

text \<open>
  A number that is a safe integer: its magnitude is at most \<open>2^53 - 1\<close>
  (\<open>Number.MAX_SAFE_INTEGER\<close>), and \<open>String\<close> writes it as its decimal numeral.
\<close>

typedef safe_integer = "{n :: int. \<bar>n\<bar> \<le> 2 ^ 53 - 1}"
  by (rule exI [of _ 0]) simp

setup_lifting type_definition_safe_integer

lift_definition safeInteger :: "int \<Rightarrow> safe_integer"
  is "\<lambda>n. if \<bar>n\<bar> \<le> 2 ^ 53 - 1 then n else 0"
  by simp

lift_definition integerValue :: "safe_integer \<Rightarrow> int"
  is "\<lambda>n. n" .

instantiation safe_integer :: equal
begin

definition equal_safe_integer :: "safe_integer \<Rightarrow> safe_integer \<Rightarrow> bool" where
  "equal_safe_integer a b = (integerValue a = integerValue b)"

instance
  by standard (simp add: equal_safe_integer_def integerValue.rep_eq Rep_safe_integer_inject)

end

text \<open>
  The values a query option or a thrown value can be. \<open>JOther\<close> is any other value (a
  number that is not a safe integer, an array, an object that is not an \<open>Error\<close>); it
  stands as the string that \<open>String\<close> gives for it.
\<close>

datatype js_value =
  JUndefined | JNull | JString string | JNumber safe_integer | JBoolean bool | JOther string

fun decimal :: "nat \<Rightarrow> string" where
  "decimal n =
     (if n < 10 then [''0123456789'' ! n]
      else decimal (n div 10) @ [''0123456789'' ! (n mod 10)])"

declare decimal.simps [simp del]

text \<open>The conversion \<open>String(value)\<close>.\<close>

fun js_String :: "js_value \<Rightarrow> string" where
  "js_String JUndefined = ''undefined''"
| "js_String JNull = ''null''"
| "js_String (JString s) = s"
| "js_String (JNumber n) =
     (if integerValue n < 0 then ''-'' @ decimal (nat (- integerValue n))
      else decimal (nat (integerValue n)))"
| "js_String (JBoolean b) = (if b then ''true'' else ''false'')"
| "js_String (JOther s) = s"

text \<open>An \<open>Error\<close> object, with its message.\<close>

datatype js_error = Error (message: string)

text \<open>
  What a \<open>catch\<close> clause receives: an instance of \<open>Error\<close>, or any other value.
\<close>

datatype thrown = ThrownError js_error | ThrownValue js_value

text \<open>
  The expression \<open>err instanceof Error ? err : new Error(String(err))\<close> of every
  \<open>catch\<close> clause of the hooks.
\<close>

fun toError :: "thrown \<Rightarrow> js_error" where
  "toError (ThrownError err) = err"
| "toError (ThrownValue v) = Error (js_String v)"

text \<open>How an awaited promise settles.\<close>

datatype 'r outcome = Fulfilled 'r | Rejected thrown

section \<open>Query strings\<close>

text \<open>
  \<open>URLSearchParams\<close> of the platform: \<open>append\<close> adds a pair at the end, and
  \<open>toString\<close> is the application/x-www-form-urlencoded serializer. It leaves ASCII
  letters, digits and \<open>* - . _\<close> as they are, writes a space as \<open>+\<close> and every other
  byte as \<open>%\<close> and two upper-case hexadecimal digits.
\<close>

definition formSafe :: string where
  "formSafe = upperLetters @ lowerLetters @ ''0123456789*-._''"

definition hexDigit :: "nat \<Rightarrow> char" where
  "hexDigit n = ''0123456789ABCDEF'' ! (n mod 16)"

definition formEncodeByte :: "char \<Rightarrow> string" where
  "formEncodeByte c =
     (if c \<in> set formSafe then [c]
      else if c = CHR '' '' then ''+''
      else [CHR ''%'', hexDigit (of_char c div 16), hexDigit (of_char c)])"

definition formEncode :: "string \<Rightarrow> string" where
  "formEncode s = concat (map formEncodeByte s)"

fun join :: "string \<Rightarrow> string list \<Rightarrow> string" where
  "join sep [] = []"
| "join sep [x] = x"
| "join sep (x # y # ys) = x @ sep @ join sep (y # ys)"

type_synonym URLSearchParams = "(string \<times> string) list"

definition append_param :: "URLSearchParams \<Rightarrow> string \<Rightarrow> string \<Rightarrow> URLSearchParams" where
  "append_param params name v = params @ [(name, v)]"

definition params_toString :: "URLSearchParams \<Rightarrow> string" where
  "params_toString params =
     join ''&'' (map (\<lambda>(name, v). formEncode name @ ''='' @ formEncode v) params)"

section \<open>The universal CRUD API client (src/api.ts)\<close>

text \<open>
  The request executor is opaque: a handle names it, and a call of its \<open>request\<close> method
  is the record of its arguments. The body is the payload that \<open>JSON.stringify\<close> encodes.
\<close>

datatype AuthApiClient = AuthApiClient nat

record 'p RequestInit =
  httpMethod :: string
  body :: "'p option"

record 'p Request =
  client :: AuthApiClient
  endpoint :: string
  requestInit :: "'p RequestInit option"

record UniversalApi =
  authApi :: AuthApiClient

text \<open>
  The options of \<open>getAll\<close>: \<open>None\<close> when the argument is left out, otherwise the
  entries of the object in the order \<open>Object.entries\<close> lists them.
\<close>

type_synonym query_options = "(string \<times> js_value) list option"

definition getAll_query :: "query_options \<Rightarrow> string" where
  "getAll_query opts =
     (case opts of
        None \<Rightarrow> []
      | Some entries \<Rightarrow>
          (let params = fold (\<lambda>(key, v) params.
                                if v \<noteq> JUndefined \<and> v \<noteq> JNull
                                then append_param params key (js_String v)
                                else params) entries [];
               queryString = params_toString params
           in if queryString \<noteq> [] then ''?'' @ queryString else []))"

definition getAll :: "UniversalApi \<Rightarrow> string \<Rightarrow> query_options \<Rightarrow> 'p Request" where
  "getAll this entityName opts =
     \<lparr>client = authApi this,
      endpoint = ''/api/'' @ pluralize entityName @ ''/'' @ getAll_query opts,
      requestInit = None\<rparr>"

definition getOne :: "UniversalApi \<Rightarrow> string \<Rightarrow> string \<Rightarrow> 'p Request" where
  "getOne this entityName entityId =
     \<lparr>client = authApi this,
      endpoint = ''/api/'' @ pluralize entityName @ ''/'' @ entityId,
      requestInit = None\<rparr>"

definition create :: "UniversalApi \<Rightarrow> string \<Rightarrow> 'p \<Rightarrow> 'p Request" where
  "create this entityName payload =
     \<lparr>client = authApi this,
      endpoint = ''/api/'' @ pluralize entityName @ ''/'',
      requestInit = Some \<lparr>httpMethod = ''POST'', body = Some payload\<rparr>\<rparr>"

definition update :: "UniversalApi \<Rightarrow> string \<Rightarrow> string \<Rightarrow> 'p \<Rightarrow> 'p Request" where
  "update this entityName entityId payload =
     \<lparr>client = authApi this,
      endpoint = ''/api/'' @ pluralize entityName @ ''/'' @ entityId,
      requestInit = Some \<lparr>httpMethod = ''PATCH'', body = Some payload\<rparr>\<rparr>"

definition remove :: "UniversalApi \<Rightarrow> string \<Rightarrow> string \<Rightarrow> 'p Request" where
  "remove this entityName entityId =
     \<lparr>client = authApi this,
      endpoint = ''/api/'' @ pluralize entityName @ ''/'' @ entityId,
      requestInit = Some \<lparr>httpMethod = ''DELETE'', body = None\<rparr>\<rparr>"

subsection \<open>The singleton instance\<close>

text \<open>The module variable \<open>apiInstance\<close> is passed explicitly.\<close>

definition initApi :: "AuthApiClient \<Rightarrow> UniversalApi option" where
  "initApi a = Some \<lparr>authApi = a\<rparr>"

definition notInitializedMessage :: string where
  "notInitializedMessage =
     ''API not initialized. Call initApi(authApi) first, typically in main.tsx or App.tsx.''
     @ [CHR 0x0A] @ ''Example:''
     @ [CHR 0x0A] @ ''  import { createAuthApi } from '' @ [CHR 0x22]
         @ ''@rationalbloks/frontblok-auth'' @ [CHR 0x22] @ '';''
     @ [CHR 0x0A] @ ''  import { initApi } from '' @ [CHR 0x22]
         @ ''@rationalbloks/frontblok-crud'' @ [CHR 0x22] @ '';''
     @ [CHR 0x0A] @ ''  const authApi = createAuthApi(API_URL);''
     @ [CHR 0x0A] @ ''  initApi(authApi);''"

definition getApi :: "UniversalApi option \<Rightarrow> js_error + UniversalApi" where
  "getApi apiInstance =
     (case apiInstance of
        None \<Rightarrow> Inl (Error notInitializedMessage)
      | Some api \<Rightarrow> Inr api)"

definition isApiInitialized :: "UniversalApi option \<Rightarrow> bool" where
  "isApiInitialized apiInstance = (apiInstance \<noteq> None)"

definition resetApi :: "UniversalApi option" where
  "resetApi = None"

section \<open>The React hooks (hooks.ts)\<close>

text \<open>
  A hook instance is the record of its state cells and of its \<open>isMounted\<close> ref. A state
  setter writes its cell. An asynchronous function is cut at its \<open>await\<close>: the first part
  runs when the function is called and either suspends on a request or completes at once;
  the second part runs when the awaited request settles. The result of a completed call is
  \<open>Inr\<close> of the returned value, or \<open>Inl\<close> of the error its promise rejects with.
\<close>

record AsyncCells =
  loading :: bool
  error :: "js_error option"

record MountedCells = AsyncCells +
  isMounted :: bool

record 'a ListHook = MountedCells +
  items :: "'a list"

record 'a EntityHook = MountedCells +
  item :: "'a option"

record 'a MutationHook = AsyncCells +
  data :: "'a option"

text \<open>Truthiness of an optional string: \<open>undefined\<close> and the empty string are falsy.\<close>

fun truthy :: "string option \<Rightarrow> bool" where
  "truthy None = False"
| "truthy (Some s) = (s \<noteq> [])"

subsection \<open>useEntityList\<close>

definition useEntityList_init :: "'a ListHook" where
  "useEntityList_init = \<lparr>loading = True, error = None, isMounted = True, items = []\<rparr>"

text \<open>\<open>fetchData\<close> after its \<open>await\<close>: the rest of \<open>try\<close>, then \<open>catch\<close>, then \<open>finally\<close>.\<close>

definition useEntityList_fetchData_resume ::
  "'a list outcome \<Rightarrow> 'a ListHook \<Rightarrow> 'a ListHook \<times> (js_error + unit)" where
  "useEntityList_fetchData_resume settled h =
     (let h1 = (case settled of
                  Fulfilled d \<Rightarrow> (if isMounted h then h\<lparr>items := d\<rparr> else h)
                | Rejected err \<Rightarrow>
                    (if isMounted h then h\<lparr>error := Some (toError err)\<rparr> else h));
          h2 = (if isMounted h1 then h1\<lparr>loading := False\<rparr> else h1)
      in (h2, Inr ()))"

text \<open>
  \<open>fetchData\<close> up to its \<open>await\<close>. A throwing \<open>getApi()\<close> is inside the \<open>try\<close>, so
  the \<open>catch\<close> and \<open>finally\<close> clauses run at once.
\<close>

definition useEntityList_fetchData ::
  "string \<Rightarrow> query_options \<Rightarrow> UniversalApi option \<Rightarrow> 'a ListHook
     \<Rightarrow> 'a ListHook \<times> ('p Request + (js_error + unit))" where
  "useEntityList_fetchData entityName opts apiInstance h =
     (let h1 = h\<lparr>loading := True, error := None\<rparr>
      in case getApi apiInstance of
           Inl err \<Rightarrow>
             (let (h2, res) = useEntityList_fetchData_resume (Rejected (ThrownError err)) h1
              in (h2, Inr res))
         | Inr api \<Rightarrow> (h1, Inl (getAll api entityName opts)))"

text \<open>The cleanup of the effect.\<close>

definition unmount :: "('z MountedCells_scheme) \<Rightarrow> ('z MountedCells_scheme)" where
  "unmount h = h\<lparr>isMounted := False\<rparr>"

subsection \<open>useEntity\<close>

definition useEntity_init :: "string option \<Rightarrow> 'a EntityHook" where
  "useEntity_init entityId =
     \<lparr>loading = truthy entityId, error = None, isMounted = True, item = None\<rparr>"

definition useEntity_fetchData_resume ::
  "'a outcome \<Rightarrow> 'a EntityHook \<Rightarrow> 'a EntityHook \<times> (js_error + unit)" where
  "useEntity_fetchData_resume settled h =
     (let h1 = (case settled of
                  Fulfilled d \<Rightarrow> (if isMounted h then h\<lparr>item := Some d\<rparr> else h)
                | Rejected err \<Rightarrow>
                    (if isMounted h then h\<lparr>error := Some (toError err), item := None\<rparr>
                     else h));
          h2 = (if isMounted h1 then h1\<lparr>loading := False\<rparr> else h1)
      in (h2, Inr ()))"

definition useEntity_fetchData ::
  "string \<Rightarrow> string option \<Rightarrow> UniversalApi option \<Rightarrow> 'a EntityHook
     \<Rightarrow> 'a EntityHook \<times> ('p Request + (js_error + unit))" where
  "useEntity_fetchData entityName entityId apiInstance h =
     (case (if truthy entityId then entityId else None) of
        None \<Rightarrow> (h\<lparr>item := None, loading := False\<rparr>, Inr (Inr ()))
      | Some i \<Rightarrow>
          (let h1 = h\<lparr>loading := True, error := None\<rparr>
           in case getApi apiInstance of
                Inl err \<Rightarrow>
                  (let (h2, res) = useEntity_fetchData_resume (Rejected (ThrownError err)) h1
                   in (h2, Inr res))
              | Inr api \<Rightarrow> (h1, Inl (getOne api entityName i))))"

subsection \<open>useMutation\<close>

definition useMutation_init :: "'a MutationHook" where
  "useMutation_init = \<lparr>loading = False, error = None, data = None\<rparr>"

definition reset :: "'a MutationHook \<Rightarrow> 'a MutationHook" where
  "reset h = h\<lparr>data := None, error := None, loading := False\<rparr>"

definition create_resume ::
  "'a outcome \<Rightarrow> 'a MutationHook \<Rightarrow> 'a MutationHook \<times> (js_error + 'a)" where
  "create_resume settled h =
     (case settled of
        Fulfilled result \<Rightarrow> (h\<lparr>data := Some result, loading := False\<rparr>, Inr result)
      | Rejected err \<Rightarrow>
          (let e = toError err in (h\<lparr>error := Some e, loading := False\<rparr>, Inl e)))"

definition useMutation_create ::
  "string \<Rightarrow> 'p \<Rightarrow> UniversalApi option \<Rightarrow> 'a MutationHook
     \<Rightarrow> 'a MutationHook \<times> ('p Request + (js_error + 'a))" where
  "useMutation_create entityName input apiInstance h =
     (let h1 = h\<lparr>loading := True, error := None\<rparr>
      in case getApi apiInstance of
           Inl err \<Rightarrow>
             (let (h2, res) = create_resume (Rejected (ThrownError err)) h1 in (h2, Inr res))
         | Inr api \<Rightarrow> (h1, Inl (create api entityName input)))"

definition update_resume ::
  "'a outcome \<Rightarrow> 'a MutationHook \<Rightarrow> 'a MutationHook \<times> (js_error + 'a)" where
  "update_resume settled h =
     (case settled of
        Fulfilled result \<Rightarrow> (h\<lparr>data := Some result, loading := False\<rparr>, Inr result)
      | Rejected err \<Rightarrow>
          (let e = toError err in (h\<lparr>error := Some e, loading := False\<rparr>, Inl e)))"

definition useMutation_update ::
  "string \<Rightarrow> string \<Rightarrow> 'p \<Rightarrow> UniversalApi option \<Rightarrow> 'a MutationHook
     \<Rightarrow> 'a MutationHook \<times> ('p Request + (js_error + 'a))" where
  "useMutation_update entityName entityId input apiInstance h =
     (let h1 = h\<lparr>loading := True, error := None\<rparr>
      in case getApi apiInstance of
           Inl err \<Rightarrow>
             (let (h2, res) = update_resume (Rejected (ThrownError err)) h1 in (h2, Inr res))
         | Inr api \<Rightarrow> (h1, Inl (update api entityName entityId input)))"

text \<open>\<open>remove\<close> awaits a request with no value: what it is fulfilled with is dropped.\<close>

definition remove_resume ::
  "'r outcome \<Rightarrow> 'a MutationHook \<Rightarrow> 'a MutationHook \<times> (js_error + unit)" where
  "remove_resume settled h =
     (case settled of
        Fulfilled _ \<Rightarrow> (h\<lparr>data := None, loading := False\<rparr>, Inr ())
      | Rejected err \<Rightarrow>
          (let e = toError err in (h\<lparr>error := Some e, loading := False\<rparr>, Inl e)))"

definition useMutation_remove ::
  "string \<Rightarrow> string \<Rightarrow> UniversalApi option \<Rightarrow> 'a MutationHook
     \<Rightarrow> 'a MutationHook \<times> ('p Request + (js_error + unit))" where
  "useMutation_remove entityName entityId apiInstance h =
     (let h1 = h\<lparr>loading := True, error := None\<rparr>
      in case getApi apiInstance of
           Inl err \<Rightarrow>
             (let (h2, res) = remove_resume (Rejected (ThrownError err) :: unit outcome) h1
              in (h2, Inr res))
         | Inr api \<Rightarrow> (h1, Inl (remove api entityName entityId)))"

subsection \<open>useEntityForm\<close>

text \<open>The form hook holds one entity hook and one mutation hook.\<close>

record 'a FormHook =
  entityHook :: "'a EntityHook"
  mutationHook :: "'a MutationHook"

definition isEdit :: "string option \<Rightarrow> bool" where
  "isEdit entityId = truthy entityId"

definition form_loading :: "'a FormHook \<Rightarrow> bool" where
  "form_loading f = (loading (entityHook f) \<or> loading (mutationHook f))"

definition form_error :: "'a FormHook \<Rightarrow> js_error option" where
  "form_error f =
     (case error (entityHook f) of Some e \<Rightarrow> Some e | None \<Rightarrow> error (mutationHook f))"

definition useEntityForm_save ::
  "string \<Rightarrow> string option \<Rightarrow> 'p \<Rightarrow> UniversalApi option \<Rightarrow> 'a MutationHook
     \<Rightarrow> 'a MutationHook \<times> ('p Request + (js_error + 'a))" where
  "useEntityForm_save entityName entityId input apiInstance h =
     (if isEdit entityId \<and> truthy entityId
      then (case entityId of
              Some i \<Rightarrow> useMutation_update entityName i input apiInstance h
            | None \<Rightarrow> useMutation_create entityName input apiInstance h)
      else useMutation_create entityName input apiInstance h)"

text \<open>
  \<open>remove\<close> of the form. The \<open>throw\<close> is inside an asynchronous function: the call
  completes with the error and has touched nothing. Past the guard the id is a string.
\<close>

definition useEntityForm_remove ::
  "string \<Rightarrow> string option \<Rightarrow> UniversalApi option \<Rightarrow> 'a MutationHook
     \<Rightarrow> 'a MutationHook \<times> ('p Request + (js_error + unit))" where
  "useEntityForm_remove entityName entityId apiInstance h =
     (if \<not> isEdit entityId \<or> \<not> truthy entityId
      then (h, Inr (Inl (Error ''Cannot delete: no entity ID provided'')))
      else (case entityId of
              Some i \<Rightarrow> useMutation_remove entityName i apiInstance h
            | None \<Rightarrow> (h, Inr (Inl (Error ''Cannot delete: no entity ID provided'')))))"

section \<open>Hook instances over time\<close>

text \<open>
  One hook instance and the requests it has in flight. The event loop runs one event at a
  time: a call of an asynchronous function of the hook, the settling of a request that is
  in flight, or the teardown of the owning component. The machine records the requests
  handed to the executor, the suspended calls (the position of the awaited request in that
  list, and which continuation waits for it) and the results of the completed calls.
\<close>

datatype ('c, 'r) event = Invoke 'c | Settle nat "'r outcome" | Teardown

record ('h, 'k, 'p, 'v) machine =
  hook :: 'h
  registry :: "UniversalApi option"
  requests :: "'p Request list"
  pending :: "(nat \<times> 'k) list"
  completions :: "(js_error + 'v) list"

definition step ::
  "('c \<Rightarrow> UniversalApi option \<Rightarrow> 'h \<Rightarrow> 'h \<times> (('p Request \<times> 'k) + (js_error + 'v)))
   \<Rightarrow> ('k \<Rightarrow> 'r outcome \<Rightarrow> 'h \<Rightarrow> 'h \<times> (js_error + 'v))
   \<Rightarrow> ('h \<Rightarrow> 'h)
   \<Rightarrow> ('h, 'k, 'p, 'v) machine \<Rightarrow> ('c, 'r) event \<Rightarrow> ('h, 'k, 'p, 'v) machine" where
  "step call resume cleanup m ev =
     (case ev of
        Invoke c \<Rightarrow>
          (case call c (registry m) (hook m) of
             (h', Inl (rq, k)) \<Rightarrow>
               m\<lparr>hook := h', requests := requests m @ [rq],
                 pending := pending m @ [(length (requests m), k)]\<rparr>
           | (h', Inr res) \<Rightarrow> m\<lparr>hook := h', completions := completions m @ [res]\<rparr>)
      | Settle n settled \<Rightarrow>
          (case map_of (pending m) n of
             None \<Rightarrow> m
           | Some k \<Rightarrow>
               (let (h', res) = resume k settled (hook m)
                in m\<lparr>hook := h', pending := filter (\<lambda>(i, _). i \<noteq> n) (pending m),
                     completions := completions m @ [res]\<rparr>))
      | Teardown \<Rightarrow> m\<lparr>hook := cleanup (hook m)\<rparr>)"

definition start :: "UniversalApi option \<Rightarrow> 'h \<Rightarrow> ('h, 'k, 'p, 'v) machine" where
  "start apiInstance h =
     \<lparr>hook = h, registry = apiInstance, requests = [], pending = [], completions = []\<rparr>"

text \<open>
  The list hook: every call is a call of \<open>fetchData\<close> (by the effect on mount, or as
  \<open>refetch\<close>), and teardown runs the cleanup of the effect.
\<close>

definition listStep ::
  "string \<Rightarrow> query_options \<Rightarrow> ('a ListHook, unit, 'p, unit) machine
     \<Rightarrow> (unit, 'a list) event \<Rightarrow> ('a ListHook, unit, 'p, unit) machine" where
  "listStep entityName opts =
     step (\<lambda>_ apiInstance h.
             (let (h', r) = useEntityList_fetchData entityName opts apiInstance h
              in (h', map_sum (\<lambda>rq. (rq, ())) id r)))
          (\<lambda>_. useEntityList_fetchData_resume)
          unmount"

definition listRun ::
  "string \<Rightarrow> query_options \<Rightarrow> ('a ListHook, unit, 'p, unit) machine
     \<Rightarrow> (unit, 'a list) event list \<Rightarrow> ('a ListHook, unit, 'p, unit) machine" where
  "listRun entityName opts = foldl (listStep entityName opts)"

definition entityStep ::
  "string \<Rightarrow> string option \<Rightarrow> ('a EntityHook, unit, 'p, unit) machine
     \<Rightarrow> (unit, 'a) event \<Rightarrow> ('a EntityHook, unit, 'p, unit) machine" where
  "entityStep entityName entityId =
     step (\<lambda>_ apiInstance h.
             (let (h', r) = useEntity_fetchData entityName entityId apiInstance h
              in (h', map_sum (\<lambda>rq. (rq, ())) id r)))
          (\<lambda>_. useEntity_fetchData_resume)
          unmount"

definition entityRun ::
  "string \<Rightarrow> string option \<Rightarrow> ('a EntityHook, unit, 'p, unit) machine
     \<Rightarrow> (unit, 'a) event list \<Rightarrow> ('a EntityHook, unit, 'p, unit) machine" where
  "entityRun entityName entityId = foldl (entityStep entityName entityId)"

text \<open>
  The mutation hook: a call is one of \<open>mutate.create\<close>, \<open>mutate.update\<close> and
  \<open>mutate.remove\<close>. The hook registers no effect, so teardown runs no code of it. A
  completed call returns the record, or nothing for \<open>remove\<close>.
\<close>

datatype 'p mutation_call = Create 'p | Update string 'p | Remove string

datatype mutation_cont = AfterCreate | AfterUpdate | AfterRemove

definition mutationCall ::
  "string \<Rightarrow> 'p mutation_call \<Rightarrow> UniversalApi option \<Rightarrow> 'a MutationHook
     \<Rightarrow> 'a MutationHook \<times> (('p Request \<times> mutation_cont) + (js_error + 'a option))" where
  "mutationCall entityName c apiInstance h =
     (case c of
        Create input \<Rightarrow>
          (let (h', r) = useMutation_create entityName input apiInstance h
           in (h', map_sum (\<lambda>rq. (rq, AfterCreate)) (map_sum id Some) r))
      | Update entityId input \<Rightarrow>
          (let (h', r) = useMutation_update entityName entityId input apiInstance h
           in (h', map_sum (\<lambda>rq. (rq, AfterUpdate)) (map_sum id Some) r))
      | Remove entityId \<Rightarrow>
          (let (h', r) = useMutation_remove entityName entityId apiInstance h
           in (h', map_sum (\<lambda>rq. (rq, AfterRemove)) (map_sum id (\<lambda>_. None)) r)))"

definition mutationResume ::
  "mutation_cont \<Rightarrow> 'a outcome \<Rightarrow> 'a MutationHook
     \<Rightarrow> 'a MutationHook \<times> (js_error + 'a option)" where
  "mutationResume k settled h =
     (case k of
        AfterCreate \<Rightarrow> (let (h', r) = create_resume settled h in (h', map_sum id Some r))
      | AfterUpdate \<Rightarrow> (let (h', r) = update_resume settled h in (h', map_sum id Some r))
      | AfterRemove \<Rightarrow>
          (let (h', r) = remove_resume settled h in (h', map_sum id (\<lambda>_. None) r)))"

definition mutationStep ::
  "string \<Rightarrow> ('a MutationHook, mutation_cont, 'p, 'a option) machine
     \<Rightarrow> ('p mutation_call, 'a) event
     \<Rightarrow> ('a MutationHook, mutation_cont, 'p, 'a option) machine" where
  "mutationStep entityName = step (mutationCall entityName) mutationResume (\<lambda>h. h)"

definition mutationRun ::
  "string \<Rightarrow> ('a MutationHook, mutation_cont, 'p, 'a option) machine
     \<Rightarrow> ('p mutation_call, 'a) event list
     \<Rightarrow> ('a MutationHook, mutation_cont, 'p, 'a option) machine" where
  "mutationRun entityName = foldl (mutationStep entityName)"

section \<open>Notions used to state the properties\<close>

text \<open>
  A regular-plural input is a word that the pluralization rules change: one that does not
  end in \<open>s\<close> in either case.
\<close>

definition regular_plural_input :: "string \<Rightarrow> bool" where
  "regular_plural_input w = (\<not> endsWith (toLowerCase w) ''s'')"

text \<open>
  The words that come back from the plural. Four endings are lost: an upper-case \<open>Y\<close>
  after a character that is not a vowel; one of \<open>ch\<close>, \<open>sh\<close>, \<open>x\<close>, \<open>z\<close>,
  \<open>o\<close> written with an upper-case letter; \<open>ie\<close> after some other character; and one
  of \<open>che\<close>, \<open>she\<close>, \<open>sse\<close>, \<open>xe\<close>, \<open>ze\<close>, \<open>oe\<close>.
\<close>

definition restorable :: "string \<Rightarrow> bool" where
  "restorable w =
     (\<not> (length w > 1 \<and> endsWith w ''Y''
          \<and> \<not> includesStr ''aeiou'' (toLowerCase (slice w (-2) (-1))))
      \<and> \<not> (list_ex (\<lambda>e. endsWith (toLowerCase w) e) [''ch'', ''sh'', ''x'', ''z'', ''o'']
          \<and> \<not> list_ex (\<lambda>e. endsWith w e) [''ch'', ''sh'', ''x'', ''z'', ''o''])
      \<and> \<not> (endsWith w ''ie'' \<and> length w > 2)
      \<and> \<not> list_ex (\<lambda>e. endsWith w (e @ ''e'')) [''ch'', ''sh'', ''ss'', ''x'', ''z'', ''o''])"

text \<open>The entries of the options that are neither \<open>undefined\<close> nor \<open>null\<close>, in order.\<close>

definition keptEntries :: "query_options \<Rightarrow> (string \<times> js_value) list" where
  "keptEntries opts =
     filter (\<lambda>(key, v). v \<noteq> JUndefined \<and> v \<noteq> JNull)
       (case opts of None \<Rightarrow> [] | Some entries \<Rightarrow> entries)"

text \<open>An entry as \<open>key=value\<close>, in the form encoding and as it stands.\<close>

definition encodedPair :: "string \<times> js_value \<Rightarrow> string" where
  "encodedPair kv = formEncode (fst kv) @ ''='' @ formEncode (js_String (snd kv))"

definition literalPair :: "string \<times> js_value \<Rightarrow> string" where
  "literalPair kv = fst kv @ ''='' @ js_String (snd kv)"

text \<open>The errors thrown to the callers of the hook so far.\<close>

definition rejections :: "('h, 'k, 'p, 'v) machine \<Rightarrow> js_error list" where
  "rejections m = concat (map (\<lambda>r. case r of Inl e \<Rightarrow> [e] | Inr _ \<Rightarrow> []) (completions m))"

fun isSettle :: "('c, 'r) event \<Rightarrow> bool" where
  "isSettle (Settle _ _) = True"
| "isSettle _ = False"

text \<open>
  An entity hook at rest with no record: nothing loaded, not loading, no error, and no
  request ever made or awaited.
\<close>

definition settledEmpty :: "('a EntityHook, unit, 'p, unit) machine \<Rightarrow> bool" where
  "settledEmpty m =
     (item (hook m) = None \<and> loading (hook m) = False \<and> error (hook m) = None
      \<and> requests m = [] \<and> pending m = [])"

text \<open>Concrete instances: an initialized client and freshly created hooks.\<close>

definition api0 :: "UniversalApi option" where
  "api0 = initApi (AuthApiClient 0)"

definition list0 :: "(nat ListHook, unit, unit, unit) machine" where
  "list0 = start api0 useEntityList_init"

definition entity0 :: "string option \<Rightarrow> (nat EntityHook, unit, unit, unit) machine" where
  "entity0 entityId = start api0 (useEntity_init entityId)"

definition mutation0 :: "(nat MutationHook, mutation_cont, nat, nat option) machine" where
  "mutation0 = start api0 useMutation_init"

lemmas machine0 = api0_def list0_def entity0_def mutation0_def start_def initApi_def
  useEntityList_init_def useEntity_init_def useMutation_init_def

section \<open>Strings: auxiliary facts\<close>

lemma integerValue_safeInteger:
  "\<bar>n\<bar> \<le> 2 ^ 53 - 1 \<Longrightarrow> integerValue (safeInteger n) = n"
  by (simp add: integerValue.rep_eq safeInteger.rep_eq)

lemma endsWith_append_short: "length e \<le> length t \<Longrightarrow> endsWith (s @ t) e = endsWith t e"
  by (simp add: endsWith_def)

lemma clampIndex_0: "clampIndex s 0 = 0"
  by (simp add: clampIndex_def)

lemma clampIndex_neg: "0 < k \<Longrightarrow> clampIndex s (- int k) = length s - k"
  by (auto simp add: clampIndex_def Let_def max_def)

lemma slice_0_neg: "0 < k \<Longrightarrow> slice s 0 (- int k) = take (length s - k) s"
  by (simp add: slice_def clampIndex_0 clampIndex_neg)

lemma slice_0_m1: "slice s 0 (-1) = take (length s - 1) s"
  using slice_0_neg [of 1 s] by simp

lemma slice_0_m2: "slice s 0 (-2) = take (length s - 2) s"
  using slice_0_neg [of 2 s] by simp

lemma slice_0_m3: "slice s 0 (-3) = take (length s - 3) s"
  using slice_0_neg [of 3 s] by simp

lemma sliceFrom_m1: "sliceFrom s (-1) = drop (length s - 1) s"
  using clampIndex_neg [of 1 s] by (simp add: sliceFrom_def)

lemma sliceFrom_m2: "sliceFrom s (-2) = drop (length s - 2) s"
  using clampIndex_neg [of 2 s] by (simp add: sliceFrom_def)

lemma slice_m2_m1: "slice s (-2) (-1) = take (length s - 1 - (length s - 2)) (drop (length s - 2) s)"
  using clampIndex_neg [of 2 s] clampIndex_neg [of 1 s] by (simp add: slice_def)

lemmas slices = slice_0_m1 slice_0_m2 slice_0_m3 sliceFrom_m1 sliceFrom_m2 slice_m2_m1

lemma endsWith_same_tail: "endsWith (s @ t) (e @ t) = endsWith s e"
  by (auto simp add: endsWith_def)

lemmas lower_defs = toLowerCase_char_def upperLetters_def lowerLetters_def

lemma lower_y: "toLowerCase_char c = CHR ''y'' \<Longrightarrow> c = CHR ''y'' \<or> c = CHR ''Y''"
  by (simp add: lower_defs split: if_splits)

lemma lower_lit:
  "toLowerCase_char CHR ''s'' = CHR ''s''" "toLowerCase_char CHR ''Y'' = CHR ''y''"
  "toLowerCase_char CHR ''y'' = CHR ''y''" "toLowerCase_char CHR ''e'' = CHR ''e''"
  by (simp_all add: lower_defs)

lemma lower_lit2:
  "toLowerCase_char CHR ''i'' = CHR ''i''"
  by (simp add: lower_defs)

lemma endsWith_iff: "endsWith s e = (\<exists>p. s = p @ e)"
proof
  assume "endsWith s e"
  then have "s = take (length s - length e) s @ e"
    by (metis append_take_drop_id endsWith_def)
  then show "\<exists>p. s = p @ e" ..
next
  assume "\<exists>p. s = p @ e"
  then show "endsWith s e" by (auto simp add: endsWith_def)
qed

lemma endsWith_snoc_neq: "b \<noteq> c \<Longrightarrow> \<not> endsWith (s @ [b]) (e @ [c])"
proof
  assume n: "b \<noteq> c" and "endsWith (s @ [b]) (e @ [c])"
  then obtain p where "s @ [b] = (p @ e) @ [c]" by (auto simp add: endsWith_iff)
  then have "b = c" by (simp only: append1_eq_conv)
  with n show False by simp
qed

text \<open>The round trip, by the length of the word.\<close>

lemma r_nil: "(toSingular (toPlural []) = []) = restorable []"
  by (simp add: toPlural_def toSingular_def endsWith_def restorable_def toLowerCase_def)

lemma r_one:
  assumes "\<not> endsWith (toLowerCase [a]) ''s''"
  shows "(toSingular (toPlural [a]) = [a]) = restorable [a]"
proof -
  let ?la = "toLowerCase_char a"
  from assms have ns: "?la \<noteq> CHR ''s''"
    by (simp add: toLowerCase_def endsWith_def)
  hence nsa: "a \<noteq> CHR ''s''" using lower_lit(1) by auto
  have rs: "restorable [a] = (?la \<in> {CHR ''x'', CHR ''z'', CHR ''o''} \<longrightarrow> a \<in> {CHR ''x'', CHR ''z'', CHR ''o''})"
    by (auto simp add: restorable_def endsWith_def toLowerCase_def)
  show ?thesis
  proof (cases "?la \<in> {CHR ''x'', CHR ''z'', CHR ''o''}")
    case True
    then have "toPlural [a] = [a] @ ''es''"
      using ns by (auto simp add: toPlural_def toLowerCase_def endsWith_def slices)
    then have "toSingular (toPlural [a]) = (if a \<in> {CHR ''x'', CHR ''z'', CHR ''o''} then [a] else [a] @ ''e'')"
      by (auto simp add: toSingular_def endsWith_def slices)
    then show ?thesis using True rs by auto
  next
    case False
    then have "toPlural [a] = [a] @ ''s''"
      using ns by (auto simp add: toPlural_def toLowerCase_def endsWith_def slices)
    then have "toSingular (toPlural [a]) = [a]"
      using nsa by (auto simp add: toSingular_def endsWith_def slices)
    then show ?thesis using False rs by auto
  qed
qed


lemma r_two:
  assumes "\<not> endsWith (toLowerCase (p @ [a, b])) ''s''"
  shows "(toSingular (toPlural (p @ [a, b])) = p @ [a, b]) = restorable (p @ [a, b])"
proof -
  let ?w = "p @ [a, b]"
  let ?la = "toLowerCase_char a"
  let ?lb = "toLowerCase_char b"
  let ?E = "[''ch'', ''sh'', ''x'', ''z'', ''o'']"
  have lw: "toLowerCase ?w = toLowerCase p @ [?la, ?lb]"
    by (simp add: toLowerCase_def)
  have ew: "\<And>e. length e \<le> 2 \<Longrightarrow> endsWith (toLowerCase ?w) e = endsWith [?la, ?lb] e"
    unfolding lw by (rule endsWith_append_short) simp
  have ww: "\<And>e. length e \<le> 2 \<Longrightarrow> endsWith ?w e = endsWith [a, b] e"
    by (rule endsWith_append_short) simp
  from assms have ns: "?lb \<noteq> CHR ''s''"
    by (simp add: ew) (simp add: endsWith_def)
  hence nsb: "b \<noteq> CHR ''s''" using lower_lit(1) by auto
  have last1: "sliceFrom ?w (-1) = [b]" by (simp add: slices)
  have snd1: "slice ?w (-2) (-1) = [a]" by (simp add: slices)
  have cut1: "slice ?w 0 (-1) = p @ [a]" by (simp add: slices)
  have c1: "(length ?w > 1 \<and> endsWith ?w ''Y''
               \<and> \<not> includesStr ''aeiou'' (toLowerCase [a]))
             = (b = CHR ''Y'' \<and> \<not> includesStr ''aeiou'' [?la])"
    by (simp add: ww toLowerCase_def) (simp add: endsWith_def eq_commute)
  have c2: "list_ex (\<lambda>e. endsWith (toLowerCase ?w) e) ?E = list_ex (\<lambda>e. endsWith [?la, ?lb] e) ?E"
    by (simp add: ew)
  have c3: "list_ex (\<lambda>e. endsWith ?w e) ?E = list_ex (\<lambda>e. endsWith [a, b] e) ?E"
    by (simp add: ww)
  have c4: "(endsWith ?w ''ie'' \<and> length ?w > 2) = (a = CHR ''i'' \<and> b = CHR ''e'' \<and> p \<noteq> [])"
    by (simp add: ww) (auto simp add: endsWith_def)
  have rs: "restorable ?w =
      (\<not> (b = CHR ''Y'' \<and> \<not> includesStr ''aeiou'' [?la])
       \<and> \<not> (list_ex (\<lambda>e. endsWith [?la, ?lb] e) ?E \<and> \<not> list_ex (\<lambda>e. endsWith [a, b] e) ?E)
       \<and> \<not> (a = CHR ''i'' \<and> b = CHR ''e'' \<and> p \<noteq> [])
       \<and> \<not> list_ex (\<lambda>e. endsWith ?w (e @ ''e'')) [''ch'', ''sh'', ''ss'', ''x'', ''z'', ''o''])"
    unfolding restorable_def snd1 c1 c2 c3 c4 by (rule refl)
  consider (y) "?lb = CHR ''y''" "\<not> includesStr ''aeiou'' [?la]"
    | (es) "\<not> (?lb = CHR ''y'' \<and> \<not> includesStr ''aeiou'' [?la])"
           "list_ex (\<lambda>ending. endsWith [?la, ?lb] ending) ?E"
    | (s) "\<not> (?lb = CHR ''y'' \<and> \<not> includesStr ''aeiou'' [?la])"
           "\<not> list_ex (\<lambda>ending. endsWith [?la, ?lb] ending) ?E"
    by blast
  then show ?thesis
  proof cases
    case y
    have "toPlural ?w = p @ [a] @ ''ies''"
      unfolding toPlural_def last1 snd1 cut1 using y ns
      by (simp add: ew toLowerCase_def) (simp add: endsWith_def)
    then have res: "toSingular (toPlural ?w) = p @ [a, CHR ''y'']"
      by (simp add: toSingular_def endsWith_def slices)
    from y(1) have yy: "b = CHR ''y'' \<or> b = CHR ''Y''" by (rule lower_y)
    have ne: "b \<noteq> CHR ''e''" using yy by auto
    have d: "\<not> list_ex (\<lambda>e. endsWith ?w (e @ ''e'')) [''ch'', ''sh'', ''ss'', ''x'', ''z'', ''o'']"
      using endsWith_snoc_neq [OF ne, of "p @ [a]"] by simp
    have "restorable ?w = (b = CHR ''y'')"
      unfolding rs using y yy d ne by (auto simp add: endsWith_def)
    then show ?thesis using res by auto
  next
    case es
    have pl: "toPlural ?w = ?w @ ''es''"
      unfolding toPlural_def last1 snd1 cut1 using es ns
      by (simp add: ew toLowerCase_def Let_def) (simp add: endsWith_def)
    have lbs: "?lb \<in> {CHR ''h'', CHR ''x'', CHR ''z'', CHR ''o''}"
      using es(2) by (auto simp add: endsWith_def)
    have nb: "b \<noteq> CHR ''Y''" "b \<noteq> CHR ''e''" "b \<noteq> CHR ''i''"
      using lbs lower_lit lower_lit2 by auto
    have e1: "endsWith (?w @ ''es'') ''es''" by (simp add: endsWith_def)
    have e2: "\<not> endsWith (?w @ ''es'') ''ies''" using nb by (auto simp add: endsWith_def)
    have e3: "list_ex (\<lambda>e. endsWith ?w e) [''ch'', ''sh'', ''ss'', ''x'', ''z'', ''o'']
                = list_ex (\<lambda>e. endsWith [a, b] e) ?E"
      using nsb by (auto simp add: ww) (auto simp add: endsWith_def)
    have res: "toSingular (toPlural ?w)
        = (if list_ex (\<lambda>e. endsWith [a, b] e) ?E then ?w else ?w @ ''e'')"
      unfolding pl toSingular_def using e1 e2 e3
      by (simp add: slices Let_def)
    have d: "\<not> list_ex (\<lambda>e. endsWith ?w (e @ ''e'')) [''ch'', ''sh'', ''ss'', ''x'', ''z'', ''o'']"
      using endsWith_snoc_neq [OF nb(2), of "p @ [a]"] by simp
    have "restorable ?w = list_ex (\<lambda>e. endsWith [a, b] e) ?E"
      unfolding rs using es nb d by auto
    then show ?thesis using res by auto
  next
    case s
    have pl: "toPlural ?w = ?w @ ''s''"
      unfolding toPlural_def last1 snd1 cut1 using s ns
      by (simp add: ew toLowerCase_def Let_def) (simp add: endsWith_def)
    have nY: "\<not> (b = CHR ''Y'' \<and> \<not> includesStr ''aeiou'' [?la])"
      using s(1) lower_lit(2) by auto
    have rs': "restorable ?w =
       (\<not> (a = CHR ''i'' \<and> b = CHR ''e'' \<and> p \<noteq> [])
        \<and> \<not> list_ex (\<lambda>e. endsWith ?w (e @ ''e'')) [''ch'', ''sh'', ''ss'', ''x'', ''z'', ''o''])"
      unfolding rs using nY s(2) by blast
    have w1: "slice (?w @ ''s'') 0 (-1) = ?w" by (simp add: slices)
    show ?thesis
    proof (cases "b = CHR ''e''")
      case True
      have d: "list_ex (\<lambda>e. endsWith ?w (e @ ''e'')) [''ch'', ''sh'', ''ss'', ''x'', ''z'', ''o'']
            = list_ex (\<lambda>e. endsWith (p @ [a]) e) [''ch'', ''sh'', ''ss'', ''x'', ''z'', ''o'']"
        using True endsWith_same_tail [of "p @ [a]" "''e''" "''ch''"]
          endsWith_same_tail [of "p @ [a]" "''e''" "''sh''"]
          endsWith_same_tail [of "p @ [a]" "''e''" "''ss''"]
          endsWith_same_tail [of "p @ [a]" "''e''" "''x''"]
          endsWith_same_tail [of "p @ [a]" "''e''" "''z''"]
          endsWith_same_tail [of "p @ [a]" "''e''" "''o''"] by simp
      have e1: "endsWith (?w @ ''s'') ''es''" using True by (simp add: endsWith_def)
      have e2: "(endsWith (?w @ ''s'') ''ies'' \<and> length (?w @ ''s'') > 3)
                  = (a = CHR ''i'' \<and> p \<noteq> [])"
        using True by (auto simp add: endsWith_def)
      have w2: "slice (?w @ ''s'') 0 (-2) = p @ [a]" by (simp add: slices)
      have w3: "slice (?w @ ''s'') 0 (-3) = p" by (simp add: slices)
      have res: "toSingular (toPlural ?w) =
          (if a = CHR ''i'' \<and> p \<noteq> [] then p @ ''y''
           else if list_ex (\<lambda>e. endsWith (p @ [a]) e) [''ch'', ''sh'', ''ss'', ''x'', ''z'', ''o'']
                then p @ [a] else ?w)"
        unfolding pl toSingular_def w1 w2 w3 e2 using e1 by (simp add: Let_def)
      show ?thesis unfolding res rs' d using True by auto
    next
      case False
      have e1: "\<not> endsWith (?w @ ''s'') ''es''" using False by (simp add: endsWith_def)
      have e2: "\<not> endsWith (?w @ ''s'') ''ies''" using False by (simp add: endsWith_def)
      have e4: "endsWith (?w @ ''s'') ''s''" by (simp add: endsWith_def)
      have res: "toSingular (toPlural ?w) = ?w"
        unfolding pl toSingular_def w1 using e1 e2 e4 by auto
      have d: "\<not> list_ex (\<lambda>e. endsWith ?w (e @ ''e''))
                  [''ch'', ''sh'', ''ss'', ''x'', ''z'', ''o'']"
        using endsWith_snoc_neq [OF False, of "p @ [a]"] by simp
      have "restorable ?w"
        unfolding rs' using False d by auto
      then show ?thesis using res by simp
    qed
  qed
qed

section \<open>Round trip of the naming utilities\<close>

text \<open>
  Claim C3, as amended. For every regular-plural input \<open>w\<close>, that is every word that
  does not end in \<open>s\<close> or \<open>S\<close>, \<open>toSingular (toPlural w)\<close> is \<open>w\<close> again exactly
  when \<open>w\<close> has none of these endings: an upper-case \<open>Y\<close> after a character that is not
  a vowel; one of \<open>ch\<close>, \<open>sh\<close>, \<open>x\<close>, \<open>z\<close>, \<open>o\<close> with an upper-case letter in it;
  \<open>ie\<close> after some other character; one of \<open>che\<close>, \<open>she\<close>, \<open>sse\<close>, \<open>xe\<close>,
  \<open>ze\<close>, \<open>oe\<close>.
\<close>

theorem roundtrip_regular_plural:
  assumes "regular_plural_input w"
  shows "(toSingular (toPlural w) = w) = restorable w"
proof (cases w rule: rev_cases)
  case Nil
  then show ?thesis by (simp add: r_nil)
next
  case (snoc ys b)
  note outer = snoc
  show ?thesis
  proof (cases ys rule: rev_cases)
    case Nil
    with outer assms show ?thesis by (simp add: r_one regular_plural_input_def)
  next
    case (snoc p a)
    with outer assms show ?thesis using r_two [of p a b]
      by (simp add: regular_plural_input_def)
  qed
qed

text \<open>
  The two words of the specification, task and category, and two words with upper-case
  letters: TASK comes back, BOX does not.
\<close>

theorem roundtrip_regular_plural_witness:
  "regular_plural_input ''task'' \<and> restorable ''task''
   \<and> toPlural ''task'' = ''tasks'' \<and> toSingular (toPlural ''task'') = ''task''
   \<and> regular_plural_input ''category'' \<and> restorable ''category''
   \<and> toPlural ''category'' = ''categories''
   \<and> toSingular (toPlural ''category'') = ''category''
   \<and> regular_plural_input ''TASK'' \<and> restorable ''TASK''
   \<and> toSingular (toPlural ''TASK'') = ''TASK''
   \<and> regular_plural_input ''BOX'' \<and> \<not> restorable ''BOX''
   \<and> toSingular (toPlural ''BOX'') \<noteq> ''BOX''"
proof -
  have h: "regular_plural_input ''task''" "regular_plural_input ''category''"
    "regular_plural_input ''TASK''" "regular_plural_input ''BOX''"
    "restorable ''task''" "restorable ''category''" "restorable ''TASK''"
    "\<not> restorable ''BOX''"
    "toPlural ''task'' = ''tasks''" "toPlural ''category'' = ''categories''"
    by code_simp+
  from h roundtrip_regular_plural [OF h(1)] roundtrip_regular_plural [OF h(2)]
    roundtrip_regular_plural [OF h(3)] roundtrip_regular_plural [OF h(4)]
  show ?thesis by simp
qed

text \<open>
  Claim C3 as stated fails. The word movie takes the plain \<open>s\<close> and comes back as movy;
  cache takes the plain \<open>s\<close> and comes back as cach; BOX takes \<open>es\<close> and comes back
  as BOXe.
\<close>

theorem roundtrip_counterexample:
  "toPlural ''movie'' = ''movie'' @ ''s'' \<and> toSingular (toPlural ''movie'') = ''movy''
   \<and> toSingular (toPlural ''movie'') \<noteq> ''movie''
   \<and> toPlural ''cache'' = ''cache'' @ ''s'' \<and> toSingular (toPlural ''cache'') = ''cach''
   \<and> toPlural ''BOX'' = ''BOX'' @ ''es'' \<and> toSingular (toPlural ''BOX'') = ''BOXe''"
  by code_simp

section \<open>Endpoints of the API client\<close>

lemma pluralize_toPlural: "pluralize s = toPlural s"
  by (simp add: pluralize_def toPlural_def)

text \<open>
  Claim C4. The endpoint pluralization of the client returns the same string as the
  exported \<open>toPlural\<close> on every entity name, and \<open>getAll\<close> of task and of tasks issue
  their request on the same path.
\<close>

theorem pluralize_eq_toPlural:
  "pluralize s = toPlural s
   \<and> endpoint (getAll api ''task'' opts :: 'p Request)
       = endpoint (getAll api ''tasks'' opts :: 'p Request)"
proof -
  have "pluralize ''task'' = pluralize ''tasks''" by code_simp
  then show ?thesis by (simp add: getAll_def pluralize_toPlural)
qed

theorem pluralize_eq_toPlural_witness:
  "pluralize ''category'' = ''categories'' \<and> toPlural ''category'' = ''categories''
   \<and> endpoint (getAll \<lparr>authApi = AuthApiClient 0\<rparr> ''task'' None :: unit Request)
       = ''/api/tasks/''
   \<and> endpoint (getAll \<lparr>authApi = AuthApiClient 0\<rparr> ''tasks'' None :: unit Request)
       = ''/api/tasks/''"
proof -
  have "toPlural ''category'' = ''categories''" "pluralize ''tasks'' = ''tasks''"
    by code_simp+
  then show ?thesis
    using pluralize_eq_toPlural [where ?'p = unit, of "''category''"
        "\<lparr>authApi = AuthApiClient 0\<rparr>" None]
    by (simp add: getAll_def getAll_query_def)
qed

text \<open>The loop over the entries keeps the wanted ones, in order.\<close>

lemma fold_append_param:
  "fold (\<lambda>(key, v) params.
           if v \<noteq> JUndefined \<and> v \<noteq> JNull then append_param params key (js_String v)
           else params)
        entries acc
   = acc @ map (\<lambda>kv. (fst kv, js_String (snd kv)))
             (filter (\<lambda>(key, v). v \<noteq> JUndefined \<and> v \<noteq> JNull) entries)"
  by (induction entries arbitrary: acc) (auto simp add: append_param_def)

lemma join_eq_Nil:
  "\<forall>x \<in> set xs. x \<noteq> [] \<Longrightarrow> (join sep xs = []) = (xs = [])"
  by (induction sep xs rule: join.induct) auto

lemma params_toString_eq_Nil: "(params_toString ps = []) = (ps = [])"
  unfolding params_toString_def by (subst join_eq_Nil) auto

lemma getAll_query_eq:
  "getAll_query opts =
     (if keptEntries opts = [] then []
      else ''?'' @ join ''&'' (map encodedPair (keptEntries opts)))"
proof (cases opts)
  case None
  then show ?thesis by (simp add: getAll_query_def keptEntries_def)
next
  case (Some entries)
  have enc: "(\<lambda>(name, v). formEncode name @ CHR ''='' # formEncode v)
               \<circ> (\<lambda>kv. (fst kv, js_String (snd kv))) = encodedPair"
    by (auto simp add: fun_eq_iff encodedPair_def)
  show ?thesis using Some
    by (simp add: getAll_query_def keptEntries_def fold_append_param
        params_toString_eq_Nil Let_def) (simp add: params_toString_def enc)
qed

text \<open>
  Claim C5, as amended. \<open>getAll\<close> issues its request on \<open>/api/\<close>, the pluralized
  entity name and \<open>/\<close>, followed by the entries of the options whose values are neither
  \<open>undefined\<close> nor \<open>null\<close>, in the order of \<open>Object.entries\<close>, each as key \<open>=\<close>
  \<open>String(value)\<close> with both sides in the form encoding, joined by \<open>&\<close> after a
  \<open>?\<close>; with no such entry the path ends at the \<open>/\<close>.
\<close>

theorem getAll_endpoint:
  "endpoint (getAll api entityName opts :: 'p Request) =
     ''/api/'' @ pluralize entityName @ ''/'' @
       (if keptEntries opts = [] then []
        else ''?'' @ join ''&'' (map encodedPair (keptEntries opts)))"
  by (simp add: getAll_def getAll_query_eq)

text \<open>The two requests of the specification.\<close>

theorem getAll_endpoint_witness:
  "endpoint (getAll \<lparr>authApi = AuthApiClient 0\<rparr> ''tasks''
       (Some [(''status'', JString ''done''), (''limit'', JNumber (safeInteger 10))]) :: unit Request)
     = ''/api/tasks/?status=done&limit=10''
   \<and> endpoint (getAll \<lparr>authApi = AuthApiClient 0\<rparr> ''tasks''
       (Some [(''status'', JUndefined)]) :: unit Request) = ''/api/tasks/''"
proof -
  have p: "pluralize ''tasks'' = ''tasks''" by code_simp
  have e: "formEncode ''status'' = ''status''" "formEncode ''done'' = ''done''"
    "formEncode ''limit'' = ''limit''" "formEncode (decimal 10) = ''10''"
    by code_simp+
  show ?thesis
    using getAll_endpoint [where ?'p = unit, of "\<lparr>authApi = AuthApiClient 0\<rparr>" "''tasks''"
              "Some [(''status'', JString ''done''), (''limit'', JNumber (safeInteger 10))]"]
      getAll_endpoint [where ?'p = unit, of "\<lparr>authApi = AuthApiClient 0\<rparr>" "''tasks''"
          "Some [(''status'', JUndefined)]"]
    by (simp add: keptEntries_def encodedPair_def integerValue_safeInteger p e)
qed

text \<open>
  Claim C5 as stated fails where a key or a value has a character outside letters, digits
  and \<open>* - . _\<close>: the option \<open>q\<close> with the value \<open>a b\<close> is sent as \<open>q=a+b\<close>, not as
  the pair \<open>q=a b\<close>.
\<close>

theorem getAll_literal_pair_counterexample:
  "endpoint (getAll \<lparr>authApi = AuthApiClient 0\<rparr> ''tasks'' (Some [(''q'', JString ''a b'')])
      :: unit Request) = ''/api/tasks/?q=a+b''
   \<and> endpoint (getAll \<lparr>authApi = AuthApiClient 0\<rparr> ''tasks'' (Some [(''q'', JString ''a b'')])
      :: unit Request)
       \<noteq> ''/api/'' @ pluralize ''tasks'' @ ''/?'' @ literalPair (''q'', JString ''a b'')"
  by code_simp

section \<open>Steps of the hook machines\<close>

lemma listStep_Invoke:
  "registry m = Some api \<Longrightarrow>
   listStep n opts m (Invoke u) =
     m\<lparr>hook := (hook m)\<lparr>loading := True, error := None\<rparr>,
       requests := requests m @ [getAll api n opts],
       pending := pending m @ [(length (requests m), ())]\<rparr>"
  by (simp add: listStep_def step_def useEntityList_fetchData_def getApi_def)

lemma map_of_unit: "k \<in> fst ` set ps \<Longrightarrow> map_of ps k = Some ()"
  by (cases "map_of ps k") (simp_all add: map_of_eq_None_iff)

lemma listStep_Settle:
  "k \<in> fst ` set (pending m) \<Longrightarrow>
   listStep n opts m (Settle k settled) =
     m\<lparr>hook := fst (useEntityList_fetchData_resume settled (hook m)),
       pending := filter (\<lambda>(i, _). i \<noteq> k) (pending m),
       completions := completions m @ [Inr ()]\<rparr>"
  by (simp add: listStep_def step_def useEntityList_fetchData_resume_def Let_def map_of_unit)

lemma listStep_Settle_none:
  "map_of (pending m) k = None \<Longrightarrow> listStep n opts m (Settle k settled) = m"
  by (simp add: listStep_def step_def)

lemma listStep_Teardown:
  "listStep n opts m Teardown = m\<lparr>hook := unmount (hook m)\<rparr>"
  by (simp add: listStep_def step_def)

lemma list_resume_fulfilled:
  "isMounted h \<Longrightarrow>
   fst (useEntityList_fetchData_resume (Fulfilled d) h) = h\<lparr>items := d, loading := False\<rparr>"
  by (simp add: useEntityList_fetchData_resume_def)

lemma list_resume_rejected:
  "isMounted h \<Longrightarrow>
   fst (useEntityList_fetchData_resume (Rejected err) h)
     = h\<lparr>error := Some (toError err), loading := False\<rparr>"
  by (simp add: useEntityList_fetchData_resume_def)

lemma list_resume_unmounted:
  "\<not> isMounted h \<Longrightarrow> fst (useEntityList_fetchData_resume settled h) = h"
  by (cases settled) (simp_all add: useEntityList_fetchData_resume_def)


lemma entityStep_Invoke:
  "registry m = Some api \<Longrightarrow> i \<noteq> [] \<Longrightarrow>
   entityStep n (Some i) m (Invoke u) =
     m\<lparr>hook := (hook m)\<lparr>loading := True, error := None\<rparr>,
       requests := requests m @ [getOne api n i],
       pending := pending m @ [(length (requests m), ())]\<rparr>"
  by (simp add: entityStep_def step_def useEntity_fetchData_def getApi_def)

lemma entityStep_Invoke_no_id:
  "\<not> truthy entityId \<Longrightarrow>
   entityStep n entityId m (Invoke u) =
     m\<lparr>hook := (hook m)\<lparr>item := None, loading := False\<rparr>,
       completions := completions m @ [Inr ()]\<rparr>"
  by (simp add: entityStep_def step_def useEntity_fetchData_def)

lemma entityStep_Settle:
  "k \<in> fst ` set (pending m) \<Longrightarrow>
   entityStep n entityId m (Settle k settled) =
     m\<lparr>hook := fst (useEntity_fetchData_resume settled (hook m)),
       pending := filter (\<lambda>(i, _). i \<noteq> k) (pending m),
       completions := completions m @ [Inr ()]\<rparr>"
  by (simp add: entityStep_def step_def useEntity_fetchData_resume_def Let_def map_of_unit)

lemma entityStep_Settle_none:
  "map_of (pending m) k = None \<Longrightarrow> entityStep n entityId m (Settle k settled) = m"
  by (simp add: entityStep_def step_def)

lemma entityStep_Teardown:
  "entityStep n entityId m Teardown = m\<lparr>hook := unmount (hook m)\<rparr>"
  by (simp add: entityStep_def step_def)

lemma entity_resume_fulfilled:
  "isMounted h \<Longrightarrow>
   fst (useEntity_fetchData_resume (Fulfilled d) h) = h\<lparr>item := Some d, loading := False\<rparr>"
  by (simp add: useEntity_fetchData_resume_def)

lemma entity_resume_rejected:
  "isMounted h \<Longrightarrow>
   fst (useEntity_fetchData_resume (Rejected err) h)
     = h\<lparr>error := Some (toError err), item := None, loading := False\<rparr>"
  by (simp add: useEntity_fetchData_resume_def)

lemma entity_resume_unmounted:
  "\<not> isMounted h \<Longrightarrow> fst (useEntity_fetchData_resume settled h) = h"
  by (cases settled) (simp_all add: useEntity_fetchData_resume_def)

lemma listStep_unmounted:
  assumes "\<not> isMounted (hook m)"
  shows "hook (listStep n opts m (Settle k settled)) = hook m
       \<and> requests (listStep n opts m (Settle k settled)) = requests m
       \<and> rejections (listStep n opts m (Settle k settled)) = rejections m"
proof (cases "map_of (pending m) k")
  case None
  then show ?thesis by (simp add: listStep_Settle_none)
next
  case (Some u)
  then have "k \<in> fst ` set (pending m)"
    by (metis domI dom_map_of_conv_image_fst)
  then show ?thesis using assms
    by (simp add: listStep_Settle list_resume_unmounted rejections_def)
qed

lemma entityStep_unmounted:
  assumes "\<not> isMounted (hook m)"
  shows "hook (entityStep n entityId m (Settle k settled)) = hook m
       \<and> requests (entityStep n entityId m (Settle k settled)) = requests m
       \<and> rejections (entityStep n entityId m (Settle k settled)) = rejections m"
proof (cases "map_of (pending m) k")
  case None
  then show ?thesis by (simp add: entityStep_Settle_none)
next
  case (Some u)
  then have "k \<in> fst ` set (pending m)"
    by (metis domI dom_map_of_conv_image_fst)
  then show ?thesis using assms
    by (simp add: entityStep_Settle entity_resume_unmounted rejections_def)
qed

lemma listRun_unmounted:
  "\<not> isMounted (hook m) \<Longrightarrow> list_all isSettle evs \<Longrightarrow>
   hook (listRun n opts m evs) = hook m
   \<and> requests (listRun n opts m evs) = requests m
   \<and> rejections (listRun n opts m evs) = rejections m"
proof (induction evs arbitrary: m)
  case Nil
  then show ?case by (simp add: listRun_def)
next
  case (Cons ev evs)
  from Cons.prems(2) obtain k settled where ev: "ev = Settle k settled"
    by (cases ev) simp_all
  have st: "hook (listStep n opts m ev) = hook m"
    "requests (listStep n opts m ev) = requests m"
    "rejections (listStep n opts m ev) = rejections m"
    using listStep_unmounted [OF Cons.prems(1)] ev by simp_all
  have "\<not> isMounted (hook (listStep n opts m ev))" using st Cons.prems(1) by simp
  from Cons.IH [OF this] Cons.prems(2) st show ?case by (simp add: listRun_def)
qed

lemma entityRun_unmounted:
  "\<not> isMounted (hook m) \<Longrightarrow> list_all isSettle evs \<Longrightarrow>
   hook (entityRun n entityId m evs) = hook m
   \<and> requests (entityRun n entityId m evs) = requests m
   \<and> rejections (entityRun n entityId m evs) = rejections m"
proof (induction evs arbitrary: m)
  case Nil
  then show ?case by (simp add: entityRun_def)
next
  case (Cons ev evs)
  from Cons.prems(2) obtain k settled where ev: "ev = Settle k settled"
    by (cases ev) simp_all
  have st: "hook (entityStep n entityId m ev) = hook m"
    "requests (entityStep n entityId m ev) = requests m"
    "rejections (entityStep n entityId m ev) = rejections m"
    using entityStep_unmounted [OF Cons.prems(1)] ev by simp_all
  have "\<not> isMounted (hook (entityStep n entityId m ev))" using st Cons.prems(1) by simp
  from Cons.IH [OF this] Cons.prems(2) st show ?case by (simp add: entityRun_def)
qed

lemma mutationStep_Settle:
  "map_of (pending m) k = Some c \<Longrightarrow>
   mutationStep n m (Settle k settled) =
     m\<lparr>hook := fst (mutationResume c settled (hook m)),
       pending := filter (\<lambda>(i, _). i \<noteq> k) (pending m),
       completions := completions m @ [snd (mutationResume c settled (hook m))]\<rparr>"
  by (simp add: mutationStep_def step_def split_beta)

lemma mutationResume_rejected:
  "mutationResume c (Rejected err) h
     = (h\<lparr>error := Some (toError err), loading := False\<rparr>, Inl (toError err))"
  by (cases c)
    (simp_all add: mutationResume_def create_resume_def update_resume_def remove_resume_def
      Let_def)

lemma mutationCall_not_initialized:
  "mutationCall n c None h
     = (h\<lparr>loading := False, error := Some (Error notInitializedMessage)\<rparr>,
        Inr (Inl (Error notInitializedMessage)))"
  by (cases c)
    (simp_all add: mutationCall_def useMutation_create_def useMutation_update_def
      useMutation_remove_def create_resume_def update_resume_def remove_resume_def getApi_def
      Let_def)

lemma entityStep_no_id:
  assumes "\<not> truthy entityId" and "settledEmpty m"
  shows "settledEmpty (entityStep n entityId m ev)"
proof (cases ev)
  case (Invoke u)
  then show ?thesis using assms
    by (simp add: entityStep_Invoke_no_id settledEmpty_def)
next
  case (Settle k settled)
  then show ?thesis using assms
    by (simp add: entityStep_Settle_none settledEmpty_def)
next
  case Teardown
  then show ?thesis using assms
    by (simp add: entityStep_Teardown settledEmpty_def unmount_def)
qed

lemma entityRun_no_id:
  "\<not> truthy entityId \<Longrightarrow> settledEmpty m \<Longrightarrow> settledEmpty (entityRun n entityId m evs)"
proof (induction evs arbitrary: m)
  case Nil
  then show ?case by (simp add: entityRun_def)
next
  case (Cons ev evs)
  from Cons.IH [OF Cons.prems(1) entityStep_no_id [OF Cons.prems]]
  show ?case by (simp add: entityRun_def)
qed

section \<open>Concurrent refetches\<close>

text \<open>
  Claim C1, as amended. On a mounted list or single-entity hook, when \<open>refetch\<close> is
  called a second time before the first request resolves and both requests succeed, the
  state after both resolutions holds the data of the request that resolved last, with
  loading cleared and no error: the data of the later-issued call when the requests resolve
  in the order of issue, the data of the earlier-issued call when they resolve in the
  opposite order.
\<close>

theorem refetch_last_resolved_wins:
  assumes "isMounted (hook ml)" and "registry ml = Some api"
    and "isMounted (hook me)" and "registry me = Some api'" and "i \<noteq> []"
  shows "hook (listRun n opts ml
            [Invoke (), Invoke (),
             Settle (length (requests ml)) (Fulfilled d1),
             Settle (Suc (length (requests ml))) (Fulfilled d2)])
           = (hook ml)\<lparr>loading := False, error := None, items := d2\<rparr>
       \<and> hook (listRun n opts ml
            [Invoke (), Invoke (),
             Settle (Suc (length (requests ml))) (Fulfilled d2),
             Settle (length (requests ml)) (Fulfilled d1)])
           = (hook ml)\<lparr>loading := False, error := None, items := d1\<rparr>
       \<and> hook (entityRun n (Some i) me
            [Invoke (), Invoke (),
             Settle (length (requests me)) (Fulfilled r1),
             Settle (Suc (length (requests me))) (Fulfilled r2)])
           = (hook me)\<lparr>loading := False, error := None, item := Some r2\<rparr>
       \<and> hook (entityRun n (Some i) me
            [Invoke (), Invoke (),
             Settle (Suc (length (requests me))) (Fulfilled r2),
             Settle (length (requests me)) (Fulfilled r1)])
           = (hook me)\<lparr>loading := False, error := None, item := Some r1\<rparr>"
proof -
  have l: "hook (listRun n opts ml
            [Invoke (), Invoke (),
             Settle (length (requests ml)) (Fulfilled d1),
             Settle (Suc (length (requests ml))) (Fulfilled d2)])
           = (hook ml)\<lparr>loading := False, error := None, items := d2\<rparr>"
    "hook (listRun n opts ml
            [Invoke (), Invoke (),
             Settle (Suc (length (requests ml))) (Fulfilled d2),
             Settle (length (requests ml)) (Fulfilled d1)])
           = (hook ml)\<lparr>loading := False, error := None, items := d1\<rparr>"
    using assms(1,2)
    by (simp_all add: listRun_def listStep_Invoke listStep_Settle list_resume_fulfilled)
  have e: "hook (entityRun n (Some i) me
            [Invoke (), Invoke (),
             Settle (length (requests me)) (Fulfilled r1),
             Settle (Suc (length (requests me))) (Fulfilled r2)])
           = (hook me)\<lparr>loading := False, error := None, item := Some r2\<rparr>"
     "hook (entityRun n (Some i) me
            [Invoke (), Invoke (),
             Settle (Suc (length (requests me))) (Fulfilled r2),
             Settle (length (requests me)) (Fulfilled r1)])
           = (hook me)\<lparr>loading := False, error := None, item := Some r1\<rparr>"
    using assms(3,4,5)
    by (simp_all add: entityRun_def entityStep_Invoke entityStep_Settle entity_resume_fulfilled)
  from l e show ?thesis by simp
qed

theorem refetch_last_resolved_wins_witness:
  "items (hook (listRun ''tasks'' None list0
      [Invoke (), Invoke (), Settle 0 (Fulfilled [1]), Settle 1 (Fulfilled [2])])) = [2]
   \<and> items (hook (listRun ''tasks'' None list0
      [Invoke (), Invoke (), Settle 1 (Fulfilled [2]), Settle 0 (Fulfilled [1])])) = [1]
   \<and> item (hook (entityRun ''tasks'' (Some ''7'') (entity0 (Some ''7''))
      [Invoke (), Invoke (), Settle 0 (Fulfilled 1), Settle 1 (Fulfilled 2)])) = Some 2
   \<and> item (hook (entityRun ''tasks'' (Some ''7'') (entity0 (Some ''7''))
      [Invoke (), Invoke (), Settle 1 (Fulfilled 2), Settle 0 (Fulfilled 1)])) = Some 1"
  using refetch_last_resolved_wins [of list0 "\<lparr>authApi = AuthApiClient 0\<rparr>" "entity0 (Some ''7'')"
      "\<lparr>authApi = AuthApiClient 0\<rparr>" "''7''" "''tasks''" None "[1]" "[2]" 1 2]
  by (simp add: machine0)

text \<open>
  Claim C1 as stated fails. Two calls are in flight, the later-issued one resolves first
  with \<open>[2]\<close> (with the record \<open>2\<close>), the earlier-issued one resolves after it with
  \<open>[1]\<close> (with the record \<open>1\<close>): the state ends with the result of the earlier call.
\<close>

theorem refetch_last_issued_counterexample:
  "items (hook (listRun ''tasks'' None list0
      [Invoke (), Invoke (), Settle 1 (Fulfilled [2]), Settle 0 (Fulfilled [1])])) = [1]
   \<and> items (hook (listRun ''tasks'' None list0
      [Invoke (), Invoke (), Settle 1 (Fulfilled [2]), Settle 0 (Fulfilled [1])])) \<noteq> [2]
   \<and> item (hook (entityRun ''tasks'' (Some ''7'') (entity0 (Some ''7''))
      [Invoke (), Invoke (), Settle 1 (Fulfilled 2), Settle 0 (Fulfilled 1)])) = Some 1
   \<and> item (hook (entityRun ''tasks'' (Some ''7'') (entity0 (Some ''7''))
      [Invoke (), Invoke (), Settle 1 (Fulfilled 2), Settle 0 (Fulfilled 1)])) \<noteq> Some 2"
  by (simp add: machine0 listRun_def listStep_Invoke listStep_Settle list_resume_fulfilled
      entityRun_def entityStep_Invoke entityStep_Settle entity_resume_fulfilled)

section \<open>Teardown\<close>

text \<open>
  Claim C2, as amended. For a list hook and for a single-entity hook, once the cleanup of
  the effect has run, requests that settle afterwards, fulfilled or rejected, change no
  state cell, issue no request and throw nothing to any caller.
\<close>

theorem fetch_teardown_discards:
  assumes "list_all isSettle evl" and "list_all isSettle eve"
  shows "hook (listRun n opts (listStep n opts ml Teardown) evl) = unmount (hook ml)
       \<and> requests (listRun n opts (listStep n opts ml Teardown) evl) = requests ml
       \<and> rejections (listRun n opts (listStep n opts ml Teardown) evl) = rejections ml
       \<and> hook (entityRun n entityId (entityStep n entityId me Teardown) eve) = unmount (hook me)
       \<and> requests (entityRun n entityId (entityStep n entityId me Teardown) eve) = requests me
       \<and> rejections (entityRun n entityId (entityStep n entityId me Teardown) eve)
           = rejections me"
proof -
  have "\<not> isMounted (hook (listStep n opts ml Teardown))"
    by (simp add: listStep_Teardown unmount_def)
  from listRun_unmounted [OF this assms(1)]
  have l: "hook (listRun n opts (listStep n opts ml Teardown) evl) = unmount (hook ml)"
    "requests (listRun n opts (listStep n opts ml Teardown) evl) = requests ml"
    "rejections (listRun n opts (listStep n opts ml Teardown) evl) = rejections ml"
    by (simp_all add: listStep_Teardown rejections_def)
  have "\<not> isMounted (hook (entityStep n entityId me Teardown))"
    by (simp add: entityStep_Teardown unmount_def)
  from entityRun_unmounted [OF this assms(2)]
  have e: "hook (entityRun n entityId (entityStep n entityId me Teardown) eve)
             = unmount (hook me)"
    "requests (entityRun n entityId (entityStep n entityId me Teardown) eve) = requests me"
    "rejections (entityRun n entityId (entityStep n entityId me Teardown) eve) = rejections me"
    by (simp_all add: entityStep_Teardown rejections_def)
  from l e show ?thesis by simp
qed


theorem fetch_teardown_discards_witness:
  "list_all isSettle [Settle 0 (Fulfilled [1::nat]) :: (unit, nat list) event]
   \<and> list_all isSettle [Settle 0 (Rejected (ThrownValue (JString ''boom''))) :: (unit, nat) event]
   \<and> hook (listRun ''tasks'' None
        (listStep ''tasks'' None (listStep ''tasks'' None list0 (Invoke ())) Teardown)
        [Settle 0 (Fulfilled [1])])
       = \<lparr>loading = True, error = None, isMounted = False, items = []\<rparr>
   \<and> rejections (entityRun ''tasks'' (Some ''7'')
        (entityStep ''tasks'' (Some ''7'')
           (entityStep ''tasks'' (Some ''7'') (entity0 (Some ''7'')) (Invoke ())) Teardown)
        [Settle 0 (Rejected (ThrownValue (JString ''boom'')))]) = []"
  using fetch_teardown_discards [of "[Settle 0 (Fulfilled [1])]"
      "[Settle 0 (Rejected (ThrownValue (JString ''boom'')))]"
      "''tasks''" None "listStep ''tasks'' None list0 (Invoke ())" "Some ''7''"
      "entityStep ''tasks'' (Some ''7'') (entity0 (Some ''7'')) (Invoke ())"]
  by (simp add: machine0 listStep_Invoke entityStep_Invoke unmount_def rejections_def)

text \<open>
  Claim C2 as stated fails for the mutation hook, which has no mounted flag. A \<open>create\<close>
  is in flight when the owner is torn down. When the request is then rejected, the error
  cell and the loading cell are written and the error is thrown to the caller; when it is
  fulfilled, the data cell and the loading cell are written.
\<close>

theorem mutation_teardown_counterexample:
  "hook (mutationRun ''tasks'' mutation0 [Invoke (Create 5), Teardown])
     = \<lparr>loading = True, error = None, data = None\<rparr>
   \<and> hook (mutationRun ''tasks'' mutation0
        [Invoke (Create 5), Teardown, Settle 0 (Rejected (ThrownValue (JString ''boom'')))])
     = \<lparr>loading = False, error = Some (Error ''boom''), data = None\<rparr>
   \<and> rejections (mutationRun ''tasks'' mutation0
        [Invoke (Create 5), Teardown, Settle 0 (Rejected (ThrownValue (JString ''boom'')))])
     = [Error ''boom'']
   \<and> hook (mutationRun ''tasks'' mutation0
        [Invoke (Create 5), Teardown, Settle 0 (Fulfilled 9)])
     = \<lparr>loading = False, error = None, data = Some 9\<rparr>"
  by (simp add: machine0 mutationRun_def mutationStep_def step_def mutationCall_def
      mutationResume_def useMutation_create_def create_resume_def getApi_def rejections_def
      Let_def)

section \<open>Failures of mutations\<close>

text \<open>
  Claim C6. For \<open>create\<close>, \<open>update\<close> and \<open>remove\<close> alike, when the awaited client
  call is rejected, the thrown value made into an error is stored in the error cell,
  loading is set back to false, the data cell is left alone, and the same error is thrown
  to the awaiting caller. The same holds when the call fails before any request because the
  client is not initialized. An \<open>Error\<close> is kept as it is, and any other value becomes an
  error whose message is its string form.
\<close>

theorem mutation_failure_both_channels:
  "create_resume (Rejected err) h
     = (h\<lparr>error := Some (toError err), loading := False\<rparr>, Inl (toError err))
   \<and> update_resume (Rejected err) h
     = (h\<lparr>error := Some (toError err), loading := False\<rparr>, Inl (toError err))
   \<and> remove_resume (Rejected err :: 'r outcome) h
     = (h\<lparr>error := Some (toError err), loading := False\<rparr>, Inl (toError err))
   \<and> (map_of (pending m) k = Some c \<longrightarrow>
      error (hook (mutationStep n m (Settle k (Rejected err)))) = Some (toError err)
      \<and> loading (hook (mutationStep n m (Settle k (Rejected err)))) = False
      \<and> data (hook (mutationStep n m (Settle k (Rejected err)))) = data (hook m)
      \<and> completions (mutationStep n m (Settle k (Rejected err)))
          = completions m @ [Inl (toError err)])
   \<and> (registry m = None \<longrightarrow>
      error (hook (mutationStep n m (Invoke call))) = Some (Error notInitializedMessage)
      \<and> loading (hook (mutationStep n m (Invoke call))) = False
      \<and> completions (mutationStep n m (Invoke call))
          = completions m @ [Inl (Error notInitializedMessage)])
   \<and> toError (ThrownError e) = e
   \<and> message (toError (ThrownValue v)) = js_String v"
proof -
  have r: "create_resume (Rejected err) h
       = (h\<lparr>error := Some (toError err), loading := False\<rparr>, Inl (toError err))"
    "update_resume (Rejected err) h
       = (h\<lparr>error := Some (toError err), loading := False\<rparr>, Inl (toError err))"
    "remove_resume (Rejected err :: 'r outcome) h
       = (h\<lparr>error := Some (toError err), loading := False\<rparr>, Inl (toError err))"
    by (simp_all add: create_resume_def update_resume_def remove_resume_def Let_def)
  have s: "map_of (pending m) k = Some c \<longrightarrow>
      error (hook (mutationStep n m (Settle k (Rejected err)))) = Some (toError err)
      \<and> loading (hook (mutationStep n m (Settle k (Rejected err)))) = False
      \<and> data (hook (mutationStep n m (Settle k (Rejected err)))) = data (hook m)
      \<and> completions (mutationStep n m (Settle k (Rejected err)))
          = completions m @ [Inl (toError err)]"
    by (simp add: mutationStep_Settle mutationResume_rejected)
  have i: "registry m = None \<longrightarrow>
      error (hook (mutationStep n m (Invoke call))) = Some (Error notInitializedMessage)
      \<and> loading (hook (mutationStep n m (Invoke call))) = False
      \<and> completions (mutationStep n m (Invoke call))
          = completions m @ [Inl (Error notInitializedMessage)]"
    by (simp add: mutationStep_def step_def mutationCall_not_initialized)
  from r s i show ?thesis by simp
qed

theorem mutation_failure_both_channels_witness:
  "map_of (pending (mutationRun ''tasks'' mutation0 [Invoke (Remove ''7'')])) 0
     = Some AfterRemove
   \<and> error (hook (mutationRun ''tasks'' mutation0
        [Invoke (Remove ''7''), Settle 0 (Rejected (ThrownValue (JString ''boom'')))]))
       = Some (Error ''boom'')
   \<and> completions (mutationRun ''tasks'' mutation0
        [Invoke (Remove ''7''), Settle 0 (Rejected (ThrownValue (JString ''boom'')))])
       = [Inl (Error ''boom'')]
   \<and> registry (start None useMutation_init
         :: (nat MutationHook, mutation_cont, nat, nat option) machine) = None
   \<and> completions (mutationStep ''tasks''
         (start None useMutation_init
            :: (nat MutationHook, mutation_cont, nat, nat option) machine)
         (Invoke (Create 5)))
       = [Inl (Error notInitializedMessage)]"
  using mutation_failure_both_channels [where ?'r = unit
      and m = "mutationRun ''tasks'' mutation0 [Invoke (Remove ''7'')]"
      and k = 0 and c = AfterRemove and n = "''tasks''"
      and err = "ThrownValue (JString ''boom'')" and h = "useMutation_init :: nat MutationHook"
      and call = "Create 5" and e = "Error ''boom''" and v = JNull]
    mutation_failure_both_channels [where ?'r = unit
      and m = "start None useMutation_init
                 :: (nat MutationHook, mutation_cont, nat, nat option) machine"
      and n = "''tasks''" and call = "Create 5" and err = "ThrownValue JNull"
      and h = "useMutation_init :: nat MutationHook" and k = 0 and c = AfterCreate
      and e = "Error ''boom''" and v = JNull]
  by (simp add: machine0 mutationRun_def mutationStep_def step_def mutationCall_def
      useMutation_remove_def getApi_def Let_def mutationResume_rejected)

section \<open>A single-entity hook without an id\<close>

text \<open>
  Claim C7. With an absent id (or an empty one), \<open>fetchData\<close> of the single-entity hook
  completes at once without a request, setting the item to null and loading to false; and
  whatever then happens to a hook created without an id, it has made no request, awaits
  none, and shows no item, no error and no loading.
\<close>

theorem useEntity_without_id:
  assumes "\<not> truthy entityId"
  shows "useEntity_fetchData n entityId apiInstance (h :: 'a EntityHook)
           = (h\<lparr>item := None, loading := False\<rparr>,
              (Inr (Inr ()) :: 'p Request + (js_error + unit)))
       \<and> settledEmpty (entityRun n entityId
            (start apiInstance (useEntity_init entityId)
               :: ('a EntityHook, unit, 'p, unit) machine) evs)"
proof -
  have "settledEmpty (start apiInstance (useEntity_init entityId)
      :: ('a EntityHook, unit, 'p, unit) machine)"
    using assms by (simp add: settledEmpty_def start_def useEntity_init_def)
  from entityRun_no_id [OF assms this] assms show ?thesis
    by (simp add: useEntity_fetchData_def)
qed

theorem useEntity_without_id_witness:
  "\<not> truthy None
   \<and> requests (entityRun ''tasks'' None (entity0 None) [Invoke (), Invoke ()]) = []
   \<and> hook (entityRun ''tasks'' None (entity0 None) [Invoke (), Invoke ()])
       = \<lparr>loading = False, error = None, isMounted = True, item = None\<rparr>"
proof -
  have "hook (entityRun ''tasks'' None (entity0 None) [Invoke (), Invoke ()])
       = \<lparr>loading = False, error = None, isMounted = True, item = None\<rparr>"
    by (simp add: machine0 entityRun_def entityStep_Invoke_no_id)
  then show ?thesis
    using useEntity_without_id [where ?'a = nat and ?'p = unit, of None "''tasks''" api0
        "useEntity_init None" "[Invoke (), Invoke ()]"]
    by (simp add: settledEmpty_def entity0_def)
qed

section \<open>Removing through the form hook\<close>

text \<open>
  Claim C8. Without an id, \<open>remove\<close> of the form hook fails with the error
  \<open>Cannot delete: no entity ID provided\<close>, touches no state and issues no request; with
  an id it is \<open>remove\<close> of the mutation hook on that id.
\<close>

theorem form_remove_requires_id:
  "(\<not> truthy entityId \<longrightarrow>
      useEntityForm_remove n entityId apiInstance h
        = (h, (Inr (Inl (Error ''Cannot delete: no entity ID provided''))
                :: 'p Request + (js_error + unit))))
   \<and> (i \<noteq> [] \<longrightarrow>
      (useEntityForm_remove n (Some i) apiInstance h
         :: 'a MutationHook \<times> ('p Request + (js_error + unit)))
        = useMutation_remove n i apiInstance h)"
  by (cases entityId) (simp_all add: useEntityForm_remove_def isEdit_def)

theorem form_remove_requires_id_witness:
  "\<not> truthy None
   \<and> (useEntityForm_remove ''tasks'' None api0 (useMutation_init :: nat MutationHook)
        :: nat MutationHook \<times> (unit Request + (js_error + unit)))
       = (useMutation_init, Inr (Inl (Error ''Cannot delete: no entity ID provided'')))
   \<and> ''7'' \<noteq> []
   \<and> (useEntityForm_remove ''tasks'' (Some ''7'') api0 (useMutation_init :: nat MutationHook)
        :: nat MutationHook \<times> (unit Request + (js_error + unit)))
       = (\<lparr>loading = True, error = None, data = None\<rparr>,
          Inl \<lparr>client = AuthApiClient 0, endpoint = ''/api/tasks/7'',
               requestInit = Some \<lparr>httpMethod = ''DELETE'', body = None\<rparr>\<rparr>)"
proof -
  have p: "pluralize ''tasks'' = ''tasks''" by code_simp
  show ?thesis
    using form_remove_requires_id [where ?'p = unit, of None "''tasks''" api0
        "useMutation_init :: nat MutationHook" "''7''"]
    by (simp add: machine0 useMutation_remove_def getApi_def remove_def p)
qed

section \<open>Failed fetches\<close>

text \<open>
  Claim C9. When a request of the list hook is rejected, the items are left as they were
  and nothing is thrown; on a mounted hook only the error is set and loading is cleared. So
  after a successful fetch followed by a failed refetch the items of the first fetch are
  shown together with the error.
\<close>

theorem list_failure_keeps_items:
  "items (fst (useEntityList_fetchData_resume (Rejected err) h)) = items h
   \<and> snd (useEntityList_fetchData_resume (Rejected err) h) = Inr ()
   \<and> (isMounted h \<longrightarrow>
        fst (useEntityList_fetchData_resume (Rejected err) h)
          = h\<lparr>error := Some (toError err), loading := False\<rparr>)
   \<and> (isMounted (hook m) \<and> registry m = Some api \<longrightarrow>
        hook (listRun n opts m
          [Invoke (), Settle (length (requests m)) (Fulfilled d),
           Invoke (), Settle (Suc (length (requests m))) (Rejected err)])
          = (hook m)\<lparr>items := d, error := Some (toError err), loading := False\<rparr>)"
  by (simp add: useEntityList_fetchData_resume_def)
     (simp add: listRun_def listStep_Invoke listStep_Settle list_resume_fulfilled
       list_resume_rejected)

theorem list_failure_keeps_items_witness:
  "isMounted (hook list0) \<and> registry list0 = Some \<lparr>authApi = AuthApiClient 0\<rparr>
   \<and> hook (listRun ''tasks'' None list0
        [Invoke (), Settle 0 (Fulfilled [1, 2]),
         Invoke (), Settle 1 (Rejected (ThrownError (Error ''offline'')))])
       = \<lparr>loading = False, error = Some (Error ''offline''), isMounted = True, items = [1, 2]\<rparr>"
  using list_failure_keeps_items [of "ThrownError (Error ''offline'')" "hook list0" list0
      "\<lparr>authApi = AuthApiClient 0\<rparr>" "''tasks''" None "[1, 2]"]
  by (simp add: machine0)

text \<open>
  Claim C10. When a request of a mounted single-entity hook is rejected, the item is set
  to null, the error made from the thrown value is stored and loading is cleared: after a
  successful fetch followed by a failed refetch the record of the first fetch is gone.
\<close>

theorem entity_failure_clears_item:
  "(isMounted h \<longrightarrow>
      fst (useEntity_fetchData_resume (Rejected err) h)
        = h\<lparr>error := Some (toError err), item := None, loading := False\<rparr>)
   \<and> (isMounted (hook m) \<and> registry m = Some api \<and> i \<noteq> [] \<longrightarrow>
        hook (entityRun n (Some i) m
          [Invoke (), Settle (length (requests m)) (Fulfilled d),
           Invoke (), Settle (Suc (length (requests m))) (Rejected err)])
          = (hook m)\<lparr>item := None, error := Some (toError err), loading := False\<rparr>)"
  by (simp add: useEntity_fetchData_resume_def)
     (simp add: entityRun_def entityStep_Invoke entityStep_Settle entity_resume_fulfilled
       entity_resume_rejected)

theorem entity_failure_clears_item_witness:
  "isMounted (hook (entity0 (Some ''7'')))
   \<and> registry (entity0 (Some ''7'')) = Some \<lparr>authApi = AuthApiClient 0\<rparr> \<and> ''7'' \<noteq> []
   \<and> hook (entityRun ''tasks'' (Some ''7'') (entity0 (Some ''7''))
        [Invoke (), Settle 0 (Fulfilled 1),
         Invoke (), Settle 1 (Rejected (ThrownValue (JNumber (safeInteger 404))))])
       = \<lparr>loading = False, error = Some (Error ''404''), isMounted = True, item = None\<rparr>"
proof -
  have d: "decimal 404 = ''404''" by code_simp
  show ?thesis
    using entity_failure_clears_item [of "hook (entity0 (Some ''7''))"
        "ThrownValue (JNumber (safeInteger 404))" "entity0 (Some ''7'')"
        "\<lparr>authApi = AuthApiClient 0\<rparr>" "''7''" "''tasks''" 1]
    by (simp add: machine0 integerValue_safeInteger d)
qed

end
